theory Spec2Isabelle
  imports Main "HOL-Library.Sublist"
begin

section \<open>Data model of \<^verbatim>\<open>main.go\<close>\<close>

text \<open>
  A Go \<^verbatim>\<open>error\<close> is modelled by the text that \<^verbatim>\<open>%v\<close> prints for it; \<^verbatim>\<open>nil\<close> is
  \<open>None\<close> of \<open>err option\<close>.
\<close>

type_synonym err = string

text \<open>
  JSON values: what \<^verbatim>\<open>encoding/json\<close> reads from the request body and what it writes
  for a \<^verbatim>\<open>map[string]interface{}\<close>, a slice, a string or a database scalar. An object
  keeps its members as an association list in the order they stand in the text (the
  encoder writes the keys of a Go map sorted). Numbers are the integers; floating point
  values are outside the model.
\<close>

datatype jvalue =
    JNull
  | JBool bool
  | JNum int
  | JStr string
  | JArr "jvalue list"
  | JObj "(string \<times> jvalue) list"

text \<open>\<^verbatim>\<open>type SQLQuery struct { Query string `json:"query"` }\<close>\<close>

record SQLQuery =
  Query :: string

text \<open>
  \<^verbatim>\<open>pgproto3.FieldDescription\<close>: the column descriptor of the driver. Of its fields the
  program reads \<^verbatim>\<open>Name\<close> only; \<^verbatim>\<open>DataTypeOID\<close> stands for the others.
\<close>

record FieldDescription =
  Name :: string
  DataTypeOID :: nat

text \<open>
  \<^verbatim>\<open>context.Context\<close>: the background context, which is never cancelled, or a context
  with a cancellation signal; \<open>WithCancel (Some k)\<close> fires once \<open>k\<close> rows have been
  pulled, \<open>WithCancel None\<close> never fires.
\<close>

datatype go_context = Background | WithCancel "nat option"

text \<open>
  \<^verbatim>\<open>*http.Request\<close>, as far as the handler can read it: the method, the body and the
  request's context. \<open>Body\<close> is the first JSON value that \<^verbatim>\<open>json.Decoder\<close> finds in
  the body, \<open>None\<close> when the body is empty or is not JSON.
\<close>

record request =
  Method :: string
  Body :: "jvalue option"
  Ctx :: go_context

text \<open>
  \<^verbatim>\<open>pgx.Rows\<close>, the cursor: the field descriptions, then for every call of
  \<^verbatim>\<open>Next()\<close> that returns true the result of \<^verbatim>\<open>Values()\<close> (the row, or an error),
  and the value of \<^verbatim>\<open>Err()\<close> once \<^verbatim>\<open>Next()\<close> has returned false.
\<close>

record Rows =
  FieldDescriptions :: "FieldDescription list"
  pending :: "(err + jvalue list) list"
  final_err :: "err option"

text \<open>
  The collaborators of the handler: \<^verbatim>\<open>db.Query(ctx, sql)\<close> of the pool, and the
  outcome of the \<open>k\<close>-th call of \<^verbatim>\<open>encoder.Encode(v)\<close> on the gzip writer (\<open>None\<close> is
  \<^verbatim>\<open>nil\<close>: the record went through the compression filter).
\<close>

record env =
  db_query :: "go_context \<Rightarrow> string \<Rightarrow> err + Rows"
  encode_err :: "nat \<Rightarrow> jvalue \<Rightarrow> err option"

text \<open>
  The calls the handler makes on its collaborators, in program order.
  \<open>HttpError msg code\<close> is \<^verbatim>\<open>http.Error(w, msg, code)\<close>, which writes \<open>msg\<close> as plain
  text to the response writer \<^verbatim>\<open>w\<close> itself, beneath the gzip writer.
  \<open>Encoded v\<close> is a call of \<^verbatim>\<open>encoder.Encode(v)\<close> that returned \<^verbatim>\<open>nil\<close>,
  \<open>EncodeFailed v\<close> one that returned an error. \<open>GzClose\<close> is \<^verbatim>\<open>gz.Close()\<close>, which
  flushes the compressor and writes the gzip footer; \<open>RowsClose\<close> is \<^verbatim>\<open>rows.Close()\<close>.
  \<open>LogPrint\<close> is a call into the \<^verbatim>\<open>log\<close> package.
\<close>

datatype event =
    HttpError string nat
  | DbQuery go_context string
  | HeaderSet string string
  | Encoded jvalue
  | EncodeFailed jvalue
  | RowsNext
  | GzClose
  | RowsClose
  | LogPrint string

section \<open>Decoding the request body\<close>

text \<open>
  \<^verbatim>\<open>json.NewDecoder(r.Body).Decode(&sqlQuery)\<close>. The decoder matches an object key
  with the struct field tagged \<^verbatim>\<open>query\<close> without regard to letter case; a string
  value is stored, \<^verbatim>\<open>null\<close> leaves the field as it is, any other value is a type
  error (the first one is kept and decoding goes on); unknown keys are skipped. A
  top-level \<^verbatim>\<open>null\<close> changes nothing, a top-level value that is no object is a type
  error.
\<close>

definition to_lower :: "char \<Rightarrow> char" where
  "to_lower c =
     (let n = (of_char c :: nat) in if 65 \<le> n \<and> n \<le> 90 then char_of (n + 32) else c)"

definition is_query_key :: "string \<Rightarrow> bool" where
  "is_query_key k = (map to_lower k = ''query'')"

fun decode_members :: "(string \<times> jvalue) list \<Rightarrow> SQLQuery \<Rightarrow> err option \<Rightarrow> SQLQuery \<times> err option" where
  "decode_members [] s e = (s, e)"
| "decode_members ((k, v) # kvs) s e =
     (if is_query_key k then
        (case v of
           JStr q \<Rightarrow> decode_members kvs (s\<lparr>Query := q\<rparr>) e
         | JNull \<Rightarrow> decode_members kvs s e
         | _ \<Rightarrow> decode_members kvs s
                 (case e of None \<Rightarrow> Some ''json: cannot unmarshal into Go struct field SQLQuery.query of type string''
                          | Some x \<Rightarrow> Some x))
      else decode_members kvs s e)"

fun Decode :: "jvalue option \<Rightarrow> SQLQuery \<Rightarrow> SQLQuery \<times> err option" where
  "Decode None s = (s, Some ''EOF or invalid character'')"
| "Decode (Some JNull) s = (s, None)"
| "Decode (Some (JObj kvs)) s = decode_members kvs s None"
| "Decode (Some v) s = (s, Some ''json: cannot unmarshal into Go value of type main.SQLQuery'')"

section \<open>The handler\<close>

text \<open>
  \<^verbatim>\<open>getColumnNames\<close>: a slice of \<open>len(columns)\<close> empty strings, filled by index in a
  range loop.
\<close>

fun fill_names :: "FieldDescription list \<Rightarrow> nat \<Rightarrow> string list \<Rightarrow> string list" where
  "fill_names [] i names = names"
| "fill_names (col # cols) i names = fill_names cols (Suc i) (names[i := Name col])"

definition getColumnNames :: "FieldDescription list \<Rightarrow> string list" where
  "getColumnNames columns = fill_names columns 0 (replicate (length columns) [])"

text \<open>
  The two records of \<^verbatim>\<open>queryHandler\<close>. \<open>queryResponse\<close> is the map with the keys
  \<^verbatim>\<open>columns\<close> and \<^verbatim>\<open>rows\<close> (an empty slice of rows) that is encoded first;
  \<open>row_record\<close> is the map with the single key \<^verbatim>\<open>rows\<close> holding a slice of one row.
\<close>

definition queryResponse :: "string list \<Rightarrow> jvalue" where
  "queryResponse columns = JObj [(''columns'', JArr (map JStr columns)), (''rows'', JArr [])]"

definition row_record :: "jvalue list \<Rightarrow> jvalue" where
  "row_record values = JObj [(''rows'', JArr [JArr values])]"

text \<open>
  The loop \<^verbatim>\<open>for rows.Next() { ... }\<close> with the check of \<^verbatim>\<open>rows.Err()\<close> behind it;
  \<open>k\<close> counts the calls of \<^verbatim>\<open>Encode\<close> made so far. Every \<^verbatim>\<open>return\<close> of the source
  ends the list.
\<close>

fun stream_rows :: "env \<Rightarrow> nat \<Rightarrow> (err + jvalue list) list \<Rightarrow> err option \<Rightarrow> event list" where
  "stream_rows e k [] fin =
     RowsNext #
     (case fin of
        Some er \<Rightarrow> [HttpError (''Query error: '' @ er) 500]
      | None \<Rightarrow> [])"
| "stream_rows e k (Inl er # rest) fin =
     [RowsNext, HttpError (''Error reading row: '' @ er) 500]"
| "stream_rows e k (Inr values # rest) fin =
     RowsNext #
     (case encode_err e k (row_record values) of
        Some er \<Rightarrow> [EncodeFailed (row_record values), HttpError (''Error encoding row: '' @ er) 500]
      | None \<Rightarrow> Encoded (row_record values) # stream_rows e (Suc k) rest fin)"

text \<open>
  \<^verbatim>\<open>queryHandler\<close>. The deferred calls run at every return behind their \<^verbatim>\<open>defer\<close>
  statement, last registered first: \<^verbatim>\<open>gz.Close()\<close>, then \<^verbatim>\<open>rows.Close()\<close>.
\<close>

definition queryHandler :: "env \<Rightarrow> request \<Rightarrow> event list" where
  "queryHandler e r =
     (if Method r \<noteq> ''POST'' then [HttpError ''Invalid request method'' 405]
      else
        (case Decode (Body r) \<lparr>Query = []\<rparr> of
           (sqlQuery, Some er) \<Rightarrow> [HttpError ''Invalid request body'' 400]
         | (sqlQuery, None) \<Rightarrow>
             DbQuery Background (Query sqlQuery) #
             (case db_query e Background (Query sqlQuery) of
                Inl er \<Rightarrow> [HttpError (''Query error: '' @ er) 400]
              | Inr rows \<Rightarrow>
                  (let columns = getColumnNames (FieldDescriptions rows) in
                   [HeaderSet ''Content-Encoding'' ''gzip'',
                    HeaderSet ''Content-Type'' ''application/json''] @
                   (case encode_err e 0 (queryResponse columns) of
                      Some er \<Rightarrow>
                        [EncodeFailed (queryResponse columns),
                         HttpError (''Error encoding response: '' @ er) 500]
                    | None \<Rightarrow>
                        Encoded (queryResponse columns) #
                        stream_rows e 1 (pending rows) (final_err rows)) @
                   [GzClose, RowsClose]))))"

section \<open>Reading a trace\<close>

text \<open>
  \<open>body_records\<close>: the records that went through the compression filter, in order; this
  is the response body after decompression, one JSON value for each successful call of
  \<^verbatim>\<open>Encode\<close>. \<open>http_errors\<close>: the calls of \<^verbatim>\<open>http.Error\<close>. \<open>log_lines\<close>: what was
  given to the \<^verbatim>\<open>log\<close> package.
\<close>

fun body_records :: "event list \<Rightarrow> jvalue list" where
  "body_records [] = []"
| "body_records (Encoded v # tr) = v # body_records tr"
| "body_records (ev # tr) = body_records tr"

fun http_errors :: "event list \<Rightarrow> (string \<times> nat) list" where
  "http_errors [] = []"
| "http_errors (HttpError msg code # tr) = (msg, code) # http_errors tr"
| "http_errors (ev # tr) = http_errors tr"

fun log_lines :: "event list \<Rightarrow> string list" where
  "log_lines [] = []"
| "log_lines (LogPrint msg # tr) = msg # log_lines tr"
| "log_lines (ev # tr) = log_lines tr"

text \<open>
  \<open>payload_after_open\<close>: some call of \<^verbatim>\<open>http.Error\<close> comes behind a record that was
  written into the response stream.
\<close>

fun payload_after_open :: "event list \<Rightarrow> bool" where
  "payload_after_open [] = False"
| "payload_after_open (Encoded v # tr) = (http_errors tr \<noteq> [] \<or> payload_after_open tr)"
| "payload_after_open (ev # tr) = payload_after_open tr"

text \<open>
  A record is a header record when it has the key \<^verbatim>\<open>columns\<close>; \<open>record_columns\<close> and
  \<open>record_rows\<close> read the members \<^verbatim>\<open>columns\<close> and \<^verbatim>\<open>rows\<close> of a record (the empty
  list when the member is missing or is no array).
\<close>

fun member_array :: "string \<Rightarrow> jvalue \<Rightarrow> jvalue list" where
  "member_array key (JObj kvs) = (case map_of kvs key of Some (JArr xs) \<Rightarrow> xs | _ \<Rightarrow> [])"
| "member_array key v = []"

fun is_header :: "jvalue \<Rightarrow> bool" where
  "is_header (JObj kvs) = (''columns'' \<in> set (map fst kvs))"
| "is_header v = False"

definition record_columns :: "jvalue \<Rightarrow> jvalue list" where
  "record_columns v = member_array ''columns'' v"

definition record_rows :: "jvalue \<Rightarrow> jvalue list" where
  "record_rows v = member_array ''rows'' v"

fun is_object :: "jvalue \<Rightarrow> bool" where
  "is_object (JObj kvs) = True"
| "is_object v = False"

section \<open>The response on the wire\<close>

text \<open>
  What reaches the response writer \<^verbatim>\<open>w\<close>, in the order of the calls. The gzip writer
  puts its header on \<^verbatim>\<open>w\<close> at its first write and the record through the compressor
  (\<open>Deflated\<close>; the compressor may hold the bytes back, at the latest until
  \<^verbatim>\<open>Close\<close>); \<^verbatim>\<open>http.Error\<close> writes its message as plain text straight to \<^verbatim>\<open>w\<close>;
  \<^verbatim>\<open>gz.Close()\<close> on a writer all of whose writes succeeded flushes it and writes the
  gzip footer. What a failed \<^verbatim>\<open>Encode\<close> leaves on \<^verbatim>\<open>w\<close> (nothing, or a part of the
  record) is \<open>FailedEncode\<close>, and what \<^verbatim>\<open>gz.Close()\<close> adds behind one (the footer,
  or nothing when the failure was a write error) is \<open>CloseAfterFailedEncode\<close>.
  The flags of \<open>wire_from\<close>: the gzip header has been written; a call of \<^verbatim>\<open>Encode\<close>
  has failed.
\<close>

datatype chunk =
    GzipHeader
  | Deflated jvalue
  | PlainText string
  | GzipFooter
  | FailedEncode
  | CloseAfterFailedEncode

fun wire_from :: "bool \<Rightarrow> bool \<Rightarrow> event list \<Rightarrow> chunk list" where
  "wire_from opened failed [] = []"
| "wire_from opened failed (Encoded v # tr) =
     (if opened then [] else [GzipHeader]) @ Deflated v # wire_from True failed tr"
| "wire_from opened failed (EncodeFailed v # tr) = FailedEncode # wire_from opened True tr"
| "wire_from opened failed (HttpError msg code # tr) = PlainText msg # wire_from opened failed tr"
| "wire_from opened failed (GzClose # tr) =
     (if failed then [CloseAfterFailedEncode]
      else (if opened then [] else [GzipHeader]) @ [GzipFooter]) @ wire_from True failed tr"
| "wire_from opened failed (ev # tr) = wire_from opened failed tr"

definition wire :: "event list \<Rightarrow> chunk list" where
  "wire tr = wire_from False False tr"

text \<open>
  A client that decompresses the body accepts it when it is one gzip stream: the gzip
  header, compressed records, the gzip footer, and nothing else. On anything else its
  decompressor or its JSON parser fails: the client detects the failure.
\<close>

fun is_deflated :: "chunk \<Rightarrow> bool" where
  "is_deflated (Deflated v) = True"
| "is_deflated c = False"

definition client_accepts :: "chunk list \<Rightarrow> bool" where
  "client_accepts ws =
     (case ws of
        GzipHeader # rest \<Rightarrow> rest \<noteq> [] \<and> last rest = GzipFooter \<and> list_all is_deflated (butlast rest)
      | _ \<Rightarrow> False)"

text \<open>
  The calls of a run up to the record of the \<open>K\<close>-th row, for the rows \<open>rs\<close> with
  \<open>K = length rs\<close>: the query, the two response headers, the header record, and for each
  row a call of \<^verbatim>\<open>rows.Next()\<close> and its record.
\<close>

definition streamed :: "SQLQuery \<Rightarrow> Rows \<Rightarrow> jvalue list list \<Rightarrow> event list" where
  "streamed sq rows rs =
     [DbQuery Background (Query sq),
      HeaderSet ''Content-Encoding'' ''gzip'',
      HeaderSet ''Content-Type'' ''application/json'',
      Encoded (queryResponse (map Name (FieldDescriptions rows)))] @
     concat (map (\<lambda>vs. [RowsNext, Encoded (row_record vs)]) rs)"

section \<open>Example requests and databases\<close>

definition rows_ab :: Rows where
  "rows_ab =
     \<lparr>FieldDescriptions = [\<lparr>Name = ''a'', DataTypeOID = 23\<rparr>, \<lparr>Name = ''b'', DataTypeOID = 23\<rparr>],
      pending = [Inr [JNum 1, JNum 2]],
      final_err = None\<rparr>"

definition rows_empty :: Rows where
  "rows_empty =
     \<lparr>FieldDescriptions = [\<lparr>Name = ''id'', DataTypeOID = 23\<rparr>],
      pending = [],
      final_err = None\<rparr>"

definition rows_three :: Rows where
  "rows_three =
     \<lparr>FieldDescriptions = [\<lparr>Name = ''n'', DataTypeOID = 23\<rparr>],
      pending = [Inr [JNum 1], Inr [JNum 2], Inr [JNum 3]],
      final_err = None\<rparr>"

definition rows_read_error :: Rows where
  "rows_read_error =
     \<lparr>FieldDescriptions = [\<lparr>Name = ''n'', DataTypeOID = 23\<rparr>],
      pending = [Inr [JNum 1], Inl ''cannot scan value'', Inr [JNum 3]],
      final_err = None\<rparr>"

definition rows_cursor_error :: Rows where
  "rows_cursor_error =
     \<lparr>FieldDescriptions = [\<lparr>Name = ''n'', DataTypeOID = 23\<rparr>],
      pending = [Inr [JNum 1]],
      final_err = Some ''ERROR: division by zero''\<rparr>"

text \<open>
  A database that honours the context it is given: under a context whose cancellation
  has fired it refuses the query.
\<close>

definition example_db :: "go_context \<Rightarrow> string \<Rightarrow> err + Rows" where
  "example_db c q =
     (if c = WithCancel (Some 0) then Inl ''context canceled''
      else if q = ''SELECT 1 AS a, 2 AS b'' then Inr rows_ab
      else if q = ''SELECT * FROM empty_table'' then Inr rows_empty
      else if q = ''SELECT n FROM three'' then Inr rows_three
      else if q = ''SELECT n FROM broken'' then Inr rows_read_error
      else if q = ''SELECT 1/(n-1) FROM three'' then Inr rows_cursor_error
      else Inl ''ERROR: syntax error'')"

definition example_env :: env where
  "example_env = \<lparr>db_query = example_db, encode_err = (\<lambda>k v. None)\<rparr>"

text \<open>An output on which the third call of \<^verbatim>\<open>Encode\<close> fails.\<close>

definition failing_env :: env where
  "failing_env =
     \<lparr>db_query = example_db,
      encode_err = (\<lambda>k v. if k = 2 then Some ''write: broken pipe'' else None)\<rparr>"

definition post :: "jvalue \<Rightarrow> request" where
  "post v = \<lparr>Method = ''POST'', Body = Some v, Ctx = WithCancel None\<rparr>"

definition post_query :: "string \<Rightarrow> request" where
  "post_query q = post (JObj [(''query'', JStr q)])"

text \<open>A request whose cancellation signal has fired before the handler starts.\<close>

definition cancelled_request :: request where
  "cancelled_request =
     \<lparr>Method = ''POST'', Body = Some (JObj [(''query'', JStr ''SELECT n FROM three'')]),
      Ctx = WithCancel (Some 0)\<rparr>"

section \<open>Lemmas about the handler\<close>


lemma fill_names_eq:
  "i + length cols = length names \<Longrightarrow> fill_names cols i names = take i names @ map Name cols"
proof (induction cols arbitrary: i names)
  case Nil
  then show ?case by simp
next
  case (Cons col cols)
  then have lt: "i < length names" by simp
  from Cons.prems have "Suc i + length cols = length (names[i := Name col])" by simp
  then have "fill_names cols (Suc i) (names[i := Name col])
      = take (Suc i) (names[i := Name col]) @ map Name cols"
    by (rule Cons.IH)
  moreover have "take (Suc i) (names[i := Name col]) = take i names @ [Name col]"
    using lt by (simp add: take_Suc_conv_app_nth)
  ultimately show ?case by simp
qed

lemma getColumnNames_map: "getColumnNames cols = map Name cols"
  by (simp add: getColumnNames_def fill_names_eq)

lemma body_records_append: "body_records (xs @ ys) = body_records xs @ body_records ys"
  by (induction xs rule: body_records.induct) simp_all

lemma http_errors_append: "http_errors (xs @ ys) = http_errors xs @ http_errors ys"
  by (induction xs rule: http_errors.induct) simp_all

lemma log_lines_append: "log_lines (xs @ ys) = log_lines xs @ log_lines ys"
  by (induction xs rule: log_lines.induct) simp_all

lemma stream_rows_all:
  "(\<forall>i<length rs. encode_err e (k + i) (row_record (rs ! i)) = None) \<Longrightarrow>
     body_records (stream_rows e k (map Inr rs) None) = map row_record rs \<and>
     http_errors (stream_rows e k (map Inr rs) None) = []"
proof (induction rs arbitrary: k)
  case Nil
  show ?case by simp
next
  case (Cons vs rs)
  from Cons.prems have here: "encode_err e k (row_record vs) = None" by force
  have "\<forall>i<length rs. encode_err e (Suc k + i) (row_record (rs ! i)) = None"
  proof (intro allI impI)
    fix i assume "i < length rs"
    then have "Suc i < length (vs # rs)" by simp
    with Cons.prems have "encode_err e (k + Suc i) (row_record ((vs # rs) ! Suc i)) = None"
      by blast
    then show "encode_err e (Suc k + i) (row_record (rs ! i)) = None" by simp
  qed
  then have "body_records (stream_rows e (Suc k) (map Inr rs) None) = map row_record rs \<and>
     http_errors (stream_rows e (Suc k) (map Inr rs) None) = []"
    by (rule Cons.IH)
  with here show ?case by simp
qed

lemma stream_rows_prefix:
  "\<exists>rs. prefix (map Inr rs) ps \<and> body_records (stream_rows e k ps fin) = map row_record rs"
proof (induction ps arbitrary: k)
  case Nil
  have "prefix (map Inr []) [] \<and> body_records (stream_rows e k [] fin) = map row_record []"
    by (simp split: option.split)
  then show ?case by blast
next
  case (Cons p ps)
  show ?case
  proof (cases p)
    case (Inl er)
    then have "prefix (map Inr []) (p # ps) \<and>
        body_records (stream_rows e k (p # ps) fin) = map row_record []"
      by simp
    then show ?thesis by blast
  next
    case (Inr vs)
    show ?thesis
    proof (cases "encode_err e k (row_record vs)")
      case (Some er)
      with Inr have "prefix (map Inr []) (p # ps) \<and>
          body_records (stream_rows e k (p # ps) fin) = map row_record []"
        by simp
      then show ?thesis by blast
    next
      case None
      from Cons.IH [of "Suc k"] obtain rs where
        rs: "prefix (map Inr rs) ps"
            "body_records (stream_rows e (Suc k) ps fin) = map row_record rs"
        by blast
      with Inr None have "prefix (map Inr (vs # rs)) (p # ps) \<and>
          body_records (stream_rows e k (p # ps) fin) = map row_record (vs # rs)"
        by simp
      then show ?thesis by blast
    qed
  qed
qed

lemma stream_rows_failure:
  "http_errors (stream_rows e k ps fin) = [] \<or>
   (\<exists>pre msg. stream_rows e k ps fin = pre @ [HttpError msg 500] \<and>
      http_errors pre = [] \<and> GzClose \<notin> set pre \<and> RowsClose \<notin> set pre)"
proof (induction ps arbitrary: k)
  case Nil
  show ?case
  proof (cases fin)
    case None
    then show ?thesis by simp
  next
    case (Some er)
    then have "stream_rows e k [] fin = [RowsNext] @ [HttpError (''Query error: '' @ er) 500]
       \<and> http_errors [RowsNext] = [] \<and> GzClose \<notin> set [RowsNext] \<and> RowsClose \<notin> set [RowsNext]"
      by simp
    then show ?thesis by blast
  qed
next
  case (Cons p ps)
  show ?case
  proof (cases p)
    case (Inl er)
    then have "stream_rows e k (p # ps) fin = [RowsNext] @ [HttpError (''Error reading row: '' @ er) 500]
       \<and> http_errors [RowsNext] = [] \<and> GzClose \<notin> set [RowsNext] \<and> RowsClose \<notin> set [RowsNext]"
      by simp
    then show ?thesis by blast
  next
    case (Inr vs)
    show ?thesis
    proof (cases "encode_err e k (row_record vs)")
      case (Some er)
      let ?pre = "[RowsNext, EncodeFailed (row_record vs)]"
      from Some Inr have "stream_rows e k (p # ps) fin = ?pre @ [HttpError (''Error encoding row: '' @ er) 500]
         \<and> http_errors ?pre = [] \<and> GzClose \<notin> set ?pre \<and> RowsClose \<notin> set ?pre"
        by simp
      then show ?thesis by blast
    next
      case None
      let ?hd = "[RowsNext, Encoded (row_record vs)]"
      from None Inr have unfold: "stream_rows e k (p # ps) fin = ?hd @ stream_rows e (Suc k) ps fin"
        by simp
      from Cons.IH [of "Suc k"] show ?thesis
      proof
        assume "http_errors (stream_rows e (Suc k) ps fin) = []"
        with unfold show ?thesis by simp
      next
        assume "\<exists>pre msg. stream_rows e (Suc k) ps fin = pre @ [HttpError msg 500] \<and>
          http_errors pre = [] \<and> GzClose \<notin> set pre \<and> RowsClose \<notin> set pre"
        then obtain pre msg where
          pre: "stream_rows e (Suc k) ps fin = pre @ [HttpError msg 500]"
               "http_errors pre = []" "GzClose \<notin> set pre" "RowsClose \<notin> set pre"
          by blast
        with unfold have "stream_rows e k (p # ps) fin = (?hd @ pre) @ [HttpError msg 500]
          \<and> http_errors (?hd @ pre) = [] \<and> GzClose \<notin> set (?hd @ pre) \<and> RowsClose \<notin> set (?hd @ pre)"
          by simp
        then show ?thesis by blast
      qed
    qed
  qed
qed

lemma stream_rows_no_log: "log_lines (stream_rows e k ps fin) = []"
proof (induction ps arbitrary: k)
  case Nil
  show ?case by (simp split: option.split)
next
  case (Cons p ps)
  then show ?case by (cases p) (simp_all split: option.split)
qed

lemma queryHandler_streaming:
  assumes "Method r = ''POST''"
    and "Decode (Body r) \<lparr>Query = []\<rparr> = (sq, None)"
    and "db_query e Background (Query sq) = Inr rows"
    and "encode_err e 0 (queryResponse (map Name (FieldDescriptions rows))) = None"
  shows "queryHandler e r =
     [DbQuery Background (Query sq),
      HeaderSet ''Content-Encoding'' ''gzip'',
      HeaderSet ''Content-Type'' ''application/json'',
      Encoded (queryResponse (map Name (FieldDescriptions rows)))] @
     stream_rows e (Suc 0) (pending rows) (final_err rows) @ [GzClose, RowsClose]"
  using assms by (simp add: queryHandler_def getColumnNames_map)

lemma queryHandler_header_failed:
  assumes "Method r = ''POST''"
    and "Decode (Body r) \<lparr>Query = []\<rparr> = (sq, None)"
    and "db_query e Background (Query sq) = Inr rows"
    and "encode_err e 0 (queryResponse (map Name (FieldDescriptions rows))) = Some er"
  shows "queryHandler e r =
     [DbQuery Background (Query sq),
      HeaderSet ''Content-Encoding'' ''gzip'',
      HeaderSet ''Content-Type'' ''application/json'',
      EncodeFailed (queryResponse (map Name (FieldDescriptions rows))),
      HttpError (''Error encoding response: '' @ er) 500, GzClose, RowsClose]"
  using assms by (simp add: queryHandler_def getColumnNames_map)


lemma record_rows_row_record: "record_rows (row_record vs) = [JArr vs]"
  by (simp add: record_rows_def row_record_def)

lemma record_rows_queryResponse: "record_rows (queryResponse cols) = []"
  by (simp add: record_rows_def queryResponse_def)

lemma record_columns_queryResponse: "record_columns (queryResponse cols) = map JStr cols"
  by (simp add: record_columns_def queryResponse_def)

lemma is_header_queryResponse: "is_header (queryResponse cols)"
  by (simp add: queryResponse_def)

lemma not_header_row_record: "\<not> is_header (row_record vs)"
  by (simp add: row_record_def)

lemma filter_header_rows: "filter is_header (map row_record rs) = []"
  by (induction rs) (simp_all add: not_header_row_record)

lemma concat_record_rows: "concat (map (record_rows \<circ> row_record) rs) = map JArr rs"
  by (induction rs) (simp_all add: record_rows_row_record)

lemma sum_record_rows: "sum_list (map ((\<lambda>v. length (record_rows v)) \<circ> row_record) rs) = length rs"
  by (induction rs) (simp_all add: record_rows_row_record)

lemma body_records_shape:
  "body_records (queryHandler e r) = [] \<or>
   (\<exists>sq rows rs. Decode (Body r) \<lparr>Query = []\<rparr> = (sq, None) \<and>
      db_query e Background (Query sq) = Inr rows \<and>
      prefix (map Inr rs) (pending rows) \<and>
      body_records (queryHandler e r) =
        queryResponse (map Name (FieldDescriptions rows)) # map row_record rs)"
proof (cases "Method r = ''POST''")
  case False
  then show ?thesis by (simp add: queryHandler_def)
next
  case post: True
  obtain sq eo where dec: "Decode (Body r) \<lparr>Query = []\<rparr> = (sq, eo)"
    by (cases "Decode (Body r) \<lparr>Query = []\<rparr>")
  show ?thesis
  proof (cases eo)
    case (Some er)
    with post dec show ?thesis by (simp add: queryHandler_def)
  next
    case None
    note dec = dec [unfolded None]
    show ?thesis
    proof (cases "db_query e Background (Query sq)")
      case (Inl er)
      with post dec show ?thesis by (simp add: queryHandler_def)
    next
      case (Inr rows)
      show ?thesis
      proof (cases "encode_err e 0 (queryResponse (map Name (FieldDescriptions rows)))")
        case (Some er)
        show ?thesis
          by (simp add: queryHandler_header_failed [OF post dec Inr Some])
      next
        case None
        obtain rs where rs: "prefix (map Inr rs) (pending rows)"
          "body_records (stream_rows e (Suc 0) (pending rows) (final_err rows)) = map row_record rs"
          using stream_rows_prefix by blast
        have "body_records (queryHandler e r) =
            queryResponse (map Name (FieldDescriptions rows)) # map row_record rs"
          by (simp add: queryHandler_streaming [OF post dec Inr None] body_records_append rs(2))
        with dec Inr rs(1) show ?thesis by blast
      qed
    qed
  qed
qed

lemma failure_shape:
  assumes "body_records (queryHandler e r) \<noteq> []"
    and "http_errors (queryHandler e r) \<noteq> []"
  shows "\<exists>pre msg. queryHandler e r = pre @ [HttpError msg 500, GzClose, RowsClose] \<and>
      http_errors pre = [] \<and> GzClose \<notin> set pre \<and> RowsClose \<notin> set pre"
proof (cases "Method r = ''POST''")
  case False
  with assms(1) show ?thesis by (simp add: queryHandler_def)
next
  case post: True
  obtain sq eo where dec: "Decode (Body r) \<lparr>Query = []\<rparr> = (sq, eo)"
    by (cases "Decode (Body r) \<lparr>Query = []\<rparr>")
  show ?thesis
  proof (cases eo)
    case (Some er)
    with post dec assms(1) show ?thesis by (simp add: queryHandler_def)
  next
    case None
    note dec = dec [unfolded None]
    show ?thesis
    proof (cases "db_query e Background (Query sq)")
      case (Inl er)
      with post dec assms(1) show ?thesis by (simp add: queryHandler_def)
    next
      case (Inr rows)
      show ?thesis
      proof (cases "encode_err e 0 (queryResponse (map Name (FieldDescriptions rows)))")
        case (Some er)
        with assms(1) show ?thesis
          by (simp add: queryHandler_header_failed [OF post dec Inr Some])
      next
        case None
        let ?hd = "[DbQuery Background (Query sq),
            HeaderSet ''Content-Encoding'' ''gzip'',
            HeaderSet ''Content-Type'' ''application/json'',
            Encoded (queryResponse (map Name (FieldDescriptions rows)))]"
        let ?loop = "stream_rows e (Suc 0) (pending rows) (final_err rows)"
        have tr: "queryHandler e r = ?hd @ ?loop @ [GzClose, RowsClose]"
          by (rule queryHandler_streaming [OF post dec Inr None])
        from assms(2) have "http_errors ?loop \<noteq> []"
          by (simp add: tr http_errors_append)
        with stream_rows_failure [of e "Suc 0" "pending rows" "final_err rows"]
        obtain pre msg where pre: "?loop = pre @ [HttpError msg 500]"
          "http_errors pre = []" "GzClose \<notin> set pre" "RowsClose \<notin> set pre"
          by blast
        have "queryHandler e r = (?hd @ pre) @ [HttpError msg 500, GzClose, RowsClose] \<and>
          http_errors (?hd @ pre) = [] \<and> GzClose \<notin> set (?hd @ pre) \<and> RowsClose \<notin> set (?hd @ pre)"
          using pre by (simp add: tr http_errors_append)
        then show ?thesis by blast
      qed
    qed
  qed
qed

lemma queryHandler_no_log: "log_lines (queryHandler e r) = []"
  by (simp add: queryHandler_def Let_def log_lines_append stream_rows_no_log
      split: prod.split option.split sum.split)

lemma stream_rows_no_query: "DbQuery c q \<notin> set (stream_rows e k ps fin)"
proof (induction ps arbitrary: k)
  case Nil
  show ?case by (simp split: option.split)
next
  case (Cons p ps)
  then show ?case by (cases p) (simp_all split: option.split)
qed

lemma payload_after_open_append:
  "body_records xs \<noteq> [] \<Longrightarrow> http_errors ys \<noteq> [] \<Longrightarrow> payload_after_open (xs @ ys)"
  by (induction xs rule: body_records.induct) (simp_all add: http_errors_append)

lemma decode_members_no_key:
  "\<forall>k \<in> set (map fst kvs). \<not> is_query_key k \<Longrightarrow> decode_members kvs s eo = (s, eo)"
  by (induction kvs) auto

lemma stream_rows_records_fin:
  "body_records (stream_rows e k ps fin) = body_records (stream_rows e k ps None)"
proof (induction ps arbitrary: k)
  case Nil
  show ?case by (simp split: option.split)
next
  case (Cons p ps)
  then show ?case by (cases p) (simp_all split: option.split)
qed

lemma stream_rows_through:
  "(\<forall>i<length rs. encode_err e (k + i) (row_record (rs ! i)) = None) \<Longrightarrow>
     stream_rows e k (map Inr rs @ rest) fin =
       concat (map (\<lambda>vs. [RowsNext, Encoded (row_record vs)]) rs) @
       stream_rows e (k + length rs) rest fin"
proof (induction rs arbitrary: k)
  case Nil
  show ?case by simp
next
  case (Cons vs rs)
  from Cons.prems have here: "encode_err e k (row_record vs) = None" by force
  have "\<forall>i<length rs. encode_err e (Suc k + i) (row_record (rs ! i)) = None"
  proof (intro allI impI)
    fix i assume "i < length rs"
    then have "Suc i < length (vs # rs)" by simp
    with Cons.prems have "encode_err e (k + Suc i) (row_record ((vs # rs) ! Suc i)) = None"
      by blast
    then show "encode_err e (Suc k + i) (row_record (rs ! i)) = None" by simp
  qed
  then have "stream_rows e (Suc k) (map Inr rs @ rest) fin =
       concat (map (\<lambda>vs. [RowsNext, Encoded (row_record vs)]) rs) @
       stream_rows e (Suc k + length rs) rest fin"
    by (rule Cons.IH)
  with here show ?case by simp
qed

lemma trace_through:
  assumes "Method r = ''POST''"
    and "Decode (Body r) \<lparr>Query = []\<rparr> = (sq, None)"
    and "db_query e Background (Query sq) = Inr rows"
    and "encode_err e 0 (queryResponse (map Name (FieldDescriptions rows))) = None"
    and "\<forall>i<length rs. encode_err e (Suc i) (row_record (rs ! i)) = None"
    and "pending rows = map Inr rs @ rest"
  shows "queryHandler e r =
     streamed sq rows rs @
     stream_rows e (Suc (length rs)) rest (final_err rows) @ [GzClose, RowsClose]"
proof -
  from assms(5) have "\<forall>i<length rs. encode_err e (Suc 0 + i) (row_record (rs ! i)) = None"
    by simp
  then have "stream_rows e (Suc 0) (map Inr rs @ rest) (final_err rows) =
       concat (map (\<lambda>vs. [RowsNext, Encoded (row_record vs)]) rs) @
       stream_rows e (Suc 0 + length rs) rest (final_err rows)"
    by (rule stream_rows_through)
  then show ?thesis
    using queryHandler_streaming [OF assms(1) assms(2) assms(3) assms(4)] assms(6)
    by (simp add: streamed_def)
qed

lemma trace_read_error:
  assumes "Method r = ''POST''"
    and "Decode (Body r) \<lparr>Query = []\<rparr> = (sq, None)"
    and "db_query e Background (Query sq) = Inr rows"
    and "encode_err e 0 (queryResponse (map Name (FieldDescriptions rows))) = None"
    and "\<forall>i<length rs. encode_err e (Suc i) (row_record (rs ! i)) = None"
    and "pending rows = map Inr rs @ Inl er # rest"
  shows "queryHandler e r =
     streamed sq rows rs @
     [RowsNext, HttpError (''Error reading row: '' @ er) 500, GzClose, RowsClose]"
  using trace_through [OF assms] by simp

lemma trace_encode_error:
  assumes "Method r = ''POST''"
    and "Decode (Body r) \<lparr>Query = []\<rparr> = (sq, None)"
    and "db_query e Background (Query sq) = Inr rows"
    and "encode_err e 0 (queryResponse (map Name (FieldDescriptions rows))) = None"
    and "\<forall>i<length rs. encode_err e (Suc i) (row_record (rs ! i)) = None"
    and "pending rows = map Inr rs @ Inr vs # rest"
    and "encode_err e (Suc (length rs)) (row_record vs) = Some er"
  shows "queryHandler e r =
     streamed sq rows rs @
     [RowsNext, EncodeFailed (row_record vs), HttpError (''Error encoding row: '' @ er) 500,
      GzClose, RowsClose]"
  using trace_through [OF assms(1) assms(2) assms(3) assms(4) assms(5) assms(6)] assms(7)
  by simp

lemma trace_cursor_error:
  assumes "Method r = ''POST''"
    and "Decode (Body r) \<lparr>Query = []\<rparr> = (sq, None)"
    and "db_query e Background (Query sq) = Inr rows"
    and "encode_err e 0 (queryResponse (map Name (FieldDescriptions rows))) = None"
    and "\<forall>i<length rs. encode_err e (Suc i) (row_record (rs ! i)) = None"
    and "pending rows = map Inr rs"
    and "final_err rows = Some er"
  shows "queryHandler e r =
     streamed sq rows rs @
     [RowsNext, HttpError (''Query error: '' @ er) 500, GzClose, RowsClose]"
proof -
  from assms(6) have "pending rows = map Inr rs @ []" by simp
  from trace_through [OF assms(1) assms(2) assms(3) assms(4) assms(5) this] assms(7)
  show ?thesis by simp
qed

lemma next_calls_exhausted:
  assumes "Method r = ''POST''"
    and "Decode (Body r) \<lparr>Query = []\<rparr> = (sq, None)"
    and "db_query e Background (Query sq) = Inr rows"
    and "encode_err e 0 (queryResponse (map Name (FieldDescriptions rows))) = None"
    and "\<forall>i<length rs. encode_err e (Suc i) (row_record (rs ! i)) = None"
    and "pending rows = map Inr rs"
  shows "count_list (queryHandler e r) RowsNext = Suc (count_list (streamed sq rows rs) RowsNext)"
proof -
  from assms(6) have "pending rows = map Inr rs @ []" by simp
  from trace_through [OF assms(1) assms(2) assms(3) assms(4) assms(5) this]
  show ?thesis by (simp split: option.split)
qed

lemma body_records_streamed:
  "body_records (streamed sq rows rs) =
     queryResponse (map Name (FieldDescriptions rows)) # map row_record rs"
proof -
  have "body_records (concat (map (\<lambda>vs. [RowsNext, Encoded (row_record vs)]) rs)) =
      map row_record rs"
    by (induction rs) simp_all
  then show ?thesis by (simp add: streamed_def body_records_append)
qed

lemma http_errors_streamed: "http_errors (streamed sq rows rs) = []"
proof -
  have "http_errors (concat (map (\<lambda>vs. [RowsNext, Encoded (row_record vs)]) rs)) = []"
    by (induction rs) simp_all
  then show ?thesis by (simp add: streamed_def http_errors_append)
qed

lemma count_next_streamed: "count_list (streamed sq rows rs) RowsNext = length rs"
proof -
  have "count_list (concat (map (\<lambda>vs. [RowsNext, Encoded (row_record vs)]) rs)) RowsNext =
      length rs"
    by (induction rs) simp_all
  then show ?thesis by (simp add: streamed_def)
qed





lemma client_accepts_complete_stream:
  "client_accepts (wire (queryHandler example_env (post_query ''SELECT n FROM three'')))"
  by (simp add: queryHandler_def example_env_def post_query_def post_def example_db_def
      rows_three_def is_query_key_def to_lower_def getColumnNames_def queryResponse_def
      row_record_def wire_def client_accepts_def)

lemma is_query_key_capitalised: "is_query_key ''Query''"
  by code_simp

section \<open>The claims\<close>

text \<open>
  Claim C1. A request whose query the database accepts, whose cursor produces the rows
  \<open>rs\<close> (\<open>N = length rs\<close>, also \<open>N = 0\<close>) and ends without an error, and whose records
  all go through the encoder: the body holds exactly one header record, which is the
  first record, followed by one row record for each row, in the order of the cursor; the
  row counts of the records behind the header sum to \<open>N\<close>, their rows joined are the rows
  of the cursor, and \<^verbatim>\<open>http.Error\<close> is never called.
\<close>

theorem stream_header_then_all_rows:
  assumes "Method r = ''POST''"
    and "Decode (Body r) \<lparr>Query = []\<rparr> = (sq, None)"
    and "db_query e Background (Query sq) = Inr rows"
    and "pending rows = map Inr rs"
    and "final_err rows = None"
    and "encode_err e 0 (queryResponse (map Name (FieldDescriptions rows))) = None"
    and "\<forall>i<length rs. encode_err e (Suc i) (row_record (rs ! i)) = None"
  shows "body_records (queryHandler e r) =
           queryResponse (map Name (FieldDescriptions rows)) # map row_record rs
       \<and> filter is_header (body_records (queryHandler e r)) =
           [queryResponse (map Name (FieldDescriptions rows))]
       \<and> concat (map record_rows (tl (body_records (queryHandler e r)))) = map JArr rs
       \<and> sum_list (map (\<lambda>v. length (record_rows v)) (tl (body_records (queryHandler e r)))) = length rs
       \<and> http_errors (queryHandler e r) = []"
proof -
  from assms(7) have "\<forall>i<length rs. encode_err e (Suc 0 + i) (row_record (rs ! i)) = None"
    by simp
  then have "body_records (stream_rows e (Suc 0) (map Inr rs) None) = map row_record rs \<and>
     http_errors (stream_rows e (Suc 0) (map Inr rs) None) = []"
    by (rule stream_rows_all)
  then have loop: "body_records (stream_rows e (Suc 0) (map Inr rs) None) = map row_record rs"
    "http_errors (stream_rows e (Suc 0) (map Inr rs) None) = []"
    by blast+
  have tr: "queryHandler e r =
     [DbQuery Background (Query sq),
      HeaderSet ''Content-Encoding'' ''gzip'',
      HeaderSet ''Content-Type'' ''application/json'',
      Encoded (queryResponse (map Name (FieldDescriptions rows)))] @
     stream_rows e (Suc 0) (map Inr rs) None @ [GzClose, RowsClose]"
    using queryHandler_streaming [OF assms(1) assms(2) assms(3) assms(6)] assms(4) assms(5)
    by simp
  have recs: "body_records (queryHandler e r) =
      queryResponse (map Name (FieldDescriptions rows)) # map row_record rs"
    by (simp add: tr body_records_append loop)
  have errs: "http_errors (queryHandler e r) = []"
    by (simp add: tr http_errors_append loop)
  show ?thesis
    by (simp add: recs errs is_header_queryResponse filter_header_rows concat_record_rows
        sum_record_rows)
qed

theorem stream_header_then_all_rows_witness:
  "body_records (queryHandler example_env (post_query ''SELECT n FROM three'')) =
      [JObj [(''columns'', JArr [JStr ''n'']), (''rows'', JArr [])],
       JObj [(''rows'', JArr [JArr [JNum 1]])],
       JObj [(''rows'', JArr [JArr [JNum 2]])],
       JObj [(''rows'', JArr [JArr [JNum 3]])]]
   \<and> sum_list (map (\<lambda>v. length (record_rows v))
        (tl (body_records (queryHandler example_env (post_query ''SELECT n FROM three''))))) = 3"
  using stream_header_then_all_rows [of "post_query ''SELECT n FROM three''"
      "\<lparr>Query = ''SELECT n FROM three''\<rparr>" example_env rows_three
      "[[JNum 1], [JNum 2], [JNum 3]]"]
  by (simp add: post_query_def post_def is_query_key_def to_lower_def example_env_def
      example_db_def rows_three_def queryResponse_def row_record_def record_rows_def)

text \<open>
  Claim C4, as stated, fails. For the request body \<^verbatim>\<open>{"query":"SELECT 1 AS a, 2 AS b"}\<close>
  the first record is not the object with the single member \<^verbatim>\<open>columns\<close>: the map
  that \<^verbatim>\<open>queryHandler\<close> encodes first also has the key \<^verbatim>\<open>rows\<close> with an empty
  slice, so the record is \<^verbatim>\<open>{"columns":["a","b"],"rows":[]}\<close>.
\<close>

theorem header_record_counterexample:
  "body_records (queryHandler example_env (post_query ''SELECT 1 AS a, 2 AS b'')) =
     [JObj [(''columns'', JArr [JStr ''a'', JStr ''b'']), (''rows'', JArr [])],
      JObj [(''rows'', JArr [JArr [JNum 1, JNum 2]])]]
   \<and> hd (body_records (queryHandler example_env (post_query ''SELECT 1 AS a, 2 AS b''))) \<noteq>
       JObj [(''columns'', JArr [JStr ''a'', JStr ''b''])]"
  by (simp add: queryHandler_def example_env_def post_query_def post_def example_db_def
      rows_ab_def is_query_key_def to_lower_def getColumnNames_def queryResponse_def
      row_record_def)

text \<open>
  Claim C4, amended. The header record written first on the stream is a JSON object with
  two members, \<^verbatim>\<open>columns\<close> holding the column name list and \<^verbatim>\<open>rows\<close> holding an
  empty array; for \<^verbatim>\<open>SELECT 1 AS a, 2 AS b\<close> it is
  \<^verbatim>\<open>{"columns":["a","b"],"rows":[]}\<close>, followed by the row record
  \<^verbatim>\<open>{"rows":[[1,2]]}\<close>.
\<close>

theorem header_record_has_columns_and_empty_rows:
  assumes "Method r = ''POST''"
    and "Decode (Body r) \<lparr>Query = []\<rparr> = (sq, None)"
    and "db_query e Background (Query sq) = Inr rows"
    and "encode_err e 0 (queryResponse (map Name (FieldDescriptions rows))) = None"
  shows "(\<exists>recs. body_records (queryHandler e r) =
      JObj [(''columns'', JArr (map JStr (map Name (FieldDescriptions rows)))),
            (''rows'', JArr [])] # recs)
     \<and> (pending rows = map Inr rs \<and>
          (\<forall>i<length rs. encode_err e (Suc i) (row_record (rs ! i)) = None)
          \<longrightarrow> body_records (queryHandler e r) =
            JObj [(''columns'', JArr (map JStr (map Name (FieldDescriptions rows)))),
                  (''rows'', JArr [])] #
            map (\<lambda>vs. JObj [(''rows'', JArr [JArr vs])]) rs)"
proof -
  have tr: "queryHandler e r =
     [DbQuery Background (Query sq),
      HeaderSet ''Content-Encoding'' ''gzip'',
      HeaderSet ''Content-Type'' ''application/json'',
      Encoded (queryResponse (map Name (FieldDescriptions rows)))] @
     stream_rows e (Suc 0) (pending rows) (final_err rows) @ [GzClose, RowsClose]"
    by (rule queryHandler_streaming [OF assms])
  have first: "\<exists>recs. body_records (queryHandler e r) =
      JObj [(''columns'', JArr (map JStr (map Name (FieldDescriptions rows)))),
            (''rows'', JArr [])] # recs"
    by (simp add: tr body_records_append queryResponse_def)
  have "body_records (queryHandler e r) =
            JObj [(''columns'', JArr (map JStr (map Name (FieldDescriptions rows)))),
                  (''rows'', JArr [])] #
            map (\<lambda>vs. JObj [(''rows'', JArr [JArr vs])]) rs"
    if pend: "pending rows = map Inr rs"
      and enc: "\<forall>i<length rs. encode_err e (Suc i) (row_record (rs ! i)) = None"
  proof -
    from enc have "\<forall>i<length rs. encode_err e (Suc 0 + i) (row_record (rs ! i)) = None"
      by simp
    then have "body_records (stream_rows e (Suc 0) (map Inr rs) None) = map row_record rs \<and>
       http_errors (stream_rows e (Suc 0) (map Inr rs) None) = []"
      by (rule stream_rows_all)
    then have "body_records (stream_rows e (Suc 0) (pending rows) (final_err rows))
         = map row_record rs"
      using pend stream_rows_records_fin [of e "Suc 0" "map Inr rs" "final_err rows"] by simp
    moreover have "map row_record rs = map (\<lambda>vs. JObj [(''rows'', JArr [JArr vs])]) rs"
      by (simp add: row_record_def)
    ultimately show ?thesis
      by (simp add: tr body_records_append queryResponse_def)
  qed
  with first show ?thesis by blast
qed

theorem header_record_has_columns_and_empty_rows_witness:
  "body_records (queryHandler example_env (post_query ''SELECT 1 AS a, 2 AS b'')) =
      [JObj [(''columns'', JArr [JStr ''a'', JStr ''b'']), (''rows'', JArr [])],
       JObj [(''rows'', JArr [JArr [JNum 1, JNum 2]])]]"
  using header_record_has_columns_and_empty_rows [where e = example_env
      and r = "post_query ''SELECT 1 AS a, 2 AS b''"
      and sq = "\<lparr>Query = ''SELECT 1 AS a, 2 AS b''\<rparr>" and rows = rows_ab
      and rs = "[[JNum 1, JNum 2]]"]
  by (simp add: post_query_def post_def is_query_key_def to_lower_def example_env_def
      example_db_def rows_ab_def)

text \<open>
  Claim C5. The column names of the header record are the names of the field
  descriptions the database returned for the query, in the same order and of the same
  count; \<^verbatim>\<open>getColumnNames\<close> is the map of \<^verbatim>\<open>Name\<close> over the descriptors.
\<close>

theorem header_columns_match_descriptors:
  assumes "Method r = ''POST''"
    and "Decode (Body r) \<lparr>Query = []\<rparr> = (sq, None)"
    and "db_query e Background (Query sq) = Inr rows"
    and "encode_err e 0 (queryResponse (map Name (FieldDescriptions rows))) = None"
  shows "getColumnNames (FieldDescriptions rows) = map Name (FieldDescriptions rows)
     \<and> record_columns (hd (body_records (queryHandler e r))) =
         map (\<lambda>fd. JStr (Name fd)) (FieldDescriptions rows)
     \<and> length (record_columns (hd (body_records (queryHandler e r)))) =
         length (FieldDescriptions rows)
     \<and> (\<forall>i<length (FieldDescriptions rows).
          record_columns (hd (body_records (queryHandler e r))) ! i =
            JStr (Name (FieldDescriptions rows ! i)))"
  by (simp add: queryHandler_streaming [OF assms] getColumnNames_map
      record_columns_queryResponse)

theorem header_columns_match_descriptors_witness:
  "record_columns (hd (body_records (queryHandler example_env (post_query ''SELECT 1 AS a, 2 AS b''))))
     = [JStr ''a'', JStr ''b'']
   \<and> length (record_columns (hd (body_records
        (queryHandler example_env (post_query ''SELECT 1 AS a, 2 AS b''))))) = 2"
  using header_columns_match_descriptors [of "post_query ''SELECT 1 AS a, 2 AS b''"
      "\<lparr>Query = ''SELECT 1 AS a, 2 AS b''\<rparr>" example_env rows_ab]
  by (simp add: post_query_def post_def is_query_key_def to_lower_def example_env_def
      example_db_def rows_ab_def queryResponse_def)

text \<open>
  Claim C6. When \<^verbatim>\<open>db.Query\<close> returns an error, the handler calls \<^verbatim>\<open>http.Error\<close>
  once, with status 400 and a message that ends with the error text of the database, and
  does nothing else: no response header is set, no record is encoded, the body stream
  stays empty.
\<close>

theorem rejected_query_writes_no_stream:
  assumes "Method r = ''POST''"
    and "Decode (Body r) \<lparr>Query = []\<rparr> = (sq, None)"
    and "db_query e Background (Query sq) = Inl er"
  shows "queryHandler e r = [DbQuery Background (Query sq), HttpError (''Query error: '' @ er) 400]
     \<and> (\<exists>msg code. http_errors (queryHandler e r) = [(msg, code)] \<and>
           400 \<le> code \<and> code < 600 \<and> suffix er msg)
     \<and> body_records (queryHandler e r) = []"
proof -
  have tr: "queryHandler e r =
      [DbQuery Background (Query sq), HttpError (''Query error: '' @ er) 400]"
    using assms by (simp add: queryHandler_def)
  have "http_errors (queryHandler e r) = [(''Query error: '' @ er, 400)] \<and>
      (400::nat) \<le> 400 \<and> (400::nat) < 600 \<and> suffix er (''Query error: '' @ er)"
    by (simp add: tr suffix_def)
  then have "\<exists>msg code. http_errors (queryHandler e r) = [(msg, code)] \<and>
           400 \<le> code \<and> code < 600 \<and> suffix er msg"
    by blast
  moreover have "body_records (queryHandler e r) = []" by (simp add: tr)
  ultimately show ?thesis using tr by blast
qed

theorem rejected_query_writes_no_stream_witness:
  "queryHandler example_env (post_query ''SELEC 1'') =
     [DbQuery Background ''SELEC 1'', HttpError ''Query error: ERROR: syntax error'' 400]
   \<and> body_records (queryHandler example_env (post_query ''SELEC 1'')) = []"
  using rejected_query_writes_no_stream [of "post_query ''SELEC 1''"
      "\<lparr>Query = ''SELEC 1''\<rparr>" example_env "''ERROR: syntax error''"]
  by (simp add: post_query_def post_def is_query_key_def to_lower_def example_env_def
      example_db_def)

text \<open>
  Claim C7. Every record the handler writes into the response body is one top-level JSON
  object, the header map or a row map, given to \<^verbatim>\<open>Encode\<close> by itself; the body is the
  sequence of these values and is never a single JSON array. On a run without failure
  over \<open>N\<close> rows it holds \<open>N + 1\<close> independent values.
\<close>

theorem records_are_top_level_objects:
  "(\<forall>v \<in> set (body_records (queryHandler e r)).
      is_object v \<and> ((\<exists>cols. v = queryResponse cols) \<or> (\<exists>vs. v = row_record vs)))
   \<and> (\<forall>xs. body_records (queryHandler e r) \<noteq> [JArr xs])
   \<and> (Method r = ''POST'' \<and> Decode (Body r) \<lparr>Query = []\<rparr> = (sq, None) \<and>
      db_query e Background (Query sq) = Inr rows \<and> pending rows = map Inr rs \<and>
      encode_err e 0 (queryResponse (map Name (FieldDescriptions rows))) = None \<and>
      (\<forall>i<length rs. encode_err e (Suc i) (row_record (rs ! i)) = None)
      \<longrightarrow> length (body_records (queryHandler e r)) = Suc (length rs))"
proof -
  have objs: "\<forall>v \<in> set (body_records (queryHandler e r)).
      is_object v \<and> ((\<exists>cols. v = queryResponse cols) \<or> (\<exists>vs. v = row_record vs))"
  proof
    fix v assume v: "v \<in> set (body_records (queryHandler e r))"
    then have ne: "body_records (queryHandler e r) \<noteq> []" by auto
    have "\<exists>sq rows rs. Decode (Body r) \<lparr>Query = []\<rparr> = (sq, None) \<and>
      db_query e Background (Query sq) = Inr rows \<and>
      prefix (map Inr rs) (pending rows) \<and>
      body_records (queryHandler e r) =
        queryResponse (map Name (FieldDescriptions rows)) # map row_record rs"
      using body_records_shape [of e r] ne by simp
    then obtain rows' :: Rows and rs' where
      "body_records (queryHandler e r) =
         queryResponse (map Name (FieldDescriptions rows')) # map row_record rs'"
      by blast
    with v have "v = queryResponse (map Name (FieldDescriptions rows')) \<or> v \<in> row_record ` set rs'"
      by simp
    then have kinds: "(\<exists>cols. v = queryResponse cols) \<or> (\<exists>vs. v = row_record vs)"
      by blast
    then have "is_object v" by (auto simp: queryResponse_def row_record_def)
    with kinds show "is_object v \<and> ((\<exists>cols. v = queryResponse cols) \<or> (\<exists>vs. v = row_record vs))"
      by blast
  qed
  have no_array: "\<forall>xs. body_records (queryHandler e r) \<noteq> [JArr xs]"
  proof (intro allI notI)
    fix xs assume "body_records (queryHandler e r) = [JArr xs]"
    with objs have "is_object (JArr xs)" by simp
    then show False by simp
  qed
  have count: "length (body_records (queryHandler e r)) = Suc (length rs)"
    if post: "Method r = ''POST''" and dec: "Decode (Body r) \<lparr>Query = []\<rparr> = (sq, None)"
      and db: "db_query e Background (Query sq) = Inr rows" and pend: "pending rows = map Inr rs"
      and hdr: "encode_err e 0 (queryResponse (map Name (FieldDescriptions rows))) = None"
      and enc: "\<forall>i<length rs. encode_err e (Suc i) (row_record (rs ! i)) = None"
  proof -
    from enc have "\<forall>i<length rs. encode_err e (Suc 0 + i) (row_record (rs ! i)) = None"
      by simp
    then have "body_records (stream_rows e (Suc 0) (map Inr rs) None) = map row_record rs \<and>
       http_errors (stream_rows e (Suc 0) (map Inr rs) None) = []"
      by (rule stream_rows_all)
    then have "body_records (stream_rows e (Suc 0) (pending rows) (final_err rows))
         = map row_record rs"
      using pend stream_rows_records_fin [of e "Suc 0" "map Inr rs" "final_err rows"] by simp
    then show ?thesis
      by (simp add: queryHandler_streaming [OF post dec db hdr] body_records_append)
  qed
  from objs no_array count show ?thesis by blast
qed

theorem records_are_top_level_objects_witness:
  "JObj [(''rows'', JArr [JArr [JNum 2]])]
      \<in> set (body_records (queryHandler example_env (post_query ''SELECT n FROM three'')))
   \<and> is_object (JObj [(''rows'', JArr [JArr [JNum 2]])])
   \<and> length (body_records (queryHandler example_env (post_query ''SELECT n FROM three''))) = 4"
  using records_are_top_level_objects [where e = example_env
      and r = "post_query ''SELECT n FROM three''"
      and sq = "\<lparr>Query = ''SELECT n FROM three''\<rparr>" and rows = rows_three
      and rs = "[[JNum 1], [JNum 2], [JNum 3]]"]
  by (simp add: queryHandler_def post_query_def post_def is_query_key_def to_lower_def
      example_env_def example_db_def rows_three_def queryResponse_def row_record_def
      getColumnNames_def)

text \<open>
  Claim C9. On every run that reaches the cursor, the records behind the header are, one
  for each row and in order, the records \<^verbatim>\<open>{"rows": [[v1, v2, ...]]}\<close> of an initial
  segment of the rows the cursor produces; the \<^verbatim>\<open>rows\<close> array of each has length
  exactly 1. When no call of \<^verbatim>\<open>Encode\<close> fails and every row is read, there is one
  such record for every row of the cursor.
\<close>

theorem one_row_per_record:
  assumes "Method r = ''POST''"
    and "Decode (Body r) \<lparr>Query = []\<rparr> = (sq, None)"
    and "db_query e Background (Query sq) = Inr rows"
  shows "(\<exists>rs. tl (body_records (queryHandler e r)) = map row_record rs \<and>
            prefix (map Inr rs) (pending rows))
     \<and> (\<forall>v \<in> set (tl (body_records (queryHandler e r))).
            length (record_rows v) = 1 \<and> (\<exists>vs. v = row_record vs \<and> record_rows v = [JArr vs]))
     \<and> (pending rows = map Inr every \<and>
          encode_err e 0 (queryResponse (map Name (FieldDescriptions rows))) = None \<and>
          (\<forall>i<length every. encode_err e (Suc i) (row_record (every ! i)) = None)
          \<longrightarrow> tl (body_records (queryHandler e r)) = map row_record every)"
proof -
  have seg: "\<exists>rs. tl (body_records (queryHandler e r)) = map row_record rs \<and>
            prefix (map Inr rs) (pending rows)"
  proof (cases "encode_err e 0 (queryResponse (map Name (FieldDescriptions rows)))")
    case (Some er)
    have "tl (body_records (queryHandler e r)) = map row_record [] \<and>
        prefix (map Inr []) (pending rows)"
      by (simp add: queryHandler_header_failed [OF assms Some])
    then show ?thesis by blast
  next
    case None
    obtain rs where rs: "prefix (map Inr rs) (pending rows)"
      "body_records (stream_rows e (Suc 0) (pending rows) (final_err rows)) = map row_record rs"
      using stream_rows_prefix by blast
    have "tl (body_records (queryHandler e r)) = map row_record rs"
      by (simp add: queryHandler_streaming [OF assms None] body_records_append rs(2))
    with rs(1) show ?thesis by blast
  qed
  have one: "\<forall>v \<in> set (tl (body_records (queryHandler e r))).
      length (record_rows v) = 1 \<and> (\<exists>vs. v = row_record vs \<and> record_rows v = [JArr vs])"
  proof
    fix v assume v: "v \<in> set (tl (body_records (queryHandler e r)))"
    from seg obtain rs where "tl (body_records (queryHandler e r)) = map row_record rs"
      by blast
    with v obtain vs where "v = row_record vs" by auto
    then show "length (record_rows v) = 1 \<and> (\<exists>vs. v = row_record vs \<and> record_rows v = [JArr vs])"
      by (simp add: record_rows_row_record)
  qed
  have every: "tl (body_records (queryHandler e r)) = map row_record every"
    if pend: "pending rows = map Inr every"
      and hdr: "encode_err e 0 (queryResponse (map Name (FieldDescriptions rows))) = None"
      and enc: "\<forall>i<length every. encode_err e (Suc i) (row_record (every ! i)) = None"
  proof -
    from enc have "\<forall>i<length every. encode_err e (Suc 0 + i) (row_record (every ! i)) = None"
      by simp
    then have "body_records (stream_rows e (Suc 0) (map Inr every) None) = map row_record every \<and>
       http_errors (stream_rows e (Suc 0) (map Inr every) None) = []"
      by (rule stream_rows_all)
    then have "body_records (stream_rows e (Suc 0) (pending rows) (final_err rows))
         = map row_record every"
      using pend stream_rows_records_fin [of e "Suc 0" "map Inr every" "final_err rows"] by simp
    then show ?thesis
      by (simp add: queryHandler_streaming [OF assms hdr] body_records_append)
  qed
  from seg one every show ?thesis by blast
qed

theorem one_row_per_record_witness:
  "tl (body_records (queryHandler failing_env (post_query ''SELECT n FROM three''))) =
      [JObj [(''rows'', JArr [JArr [JNum 1]])]]
   \<and> length (record_rows (JObj [(''rows'', JArr [JArr [JNum 1]])])) = 1
   \<and> tl (body_records (queryHandler example_env (post_query ''SELECT n FROM three''))) =
      [JObj [(''rows'', JArr [JArr [JNum 1]])], JObj [(''rows'', JArr [JArr [JNum 2]])],
       JObj [(''rows'', JArr [JArr [JNum 3]])]]"
  using one_row_per_record [where e = failing_env
      and r = "post_query ''SELECT n FROM three''"
      and sq = "\<lparr>Query = ''SELECT n FROM three''\<rparr>" and rows = rows_three
      and every = "[]"]
    one_row_per_record [where e = example_env
      and r = "post_query ''SELECT n FROM three''"
      and sq = "\<lparr>Query = ''SELECT n FROM three''\<rparr>" and rows = rows_three
      and every = "[[JNum 1], [JNum 2], [JNum 3]]"]
  by (simp add: queryHandler_def post_query_def post_def is_query_key_def to_lower_def
      example_env_def failing_env_def example_db_def rows_three_def queryResponse_def
      row_record_def getColumnNames_def record_rows_def)

text \<open>
  Claim C10, as stated, fails. The body \<^verbatim>\<open>[]\<close> is well-formed JSON and has no key
  \<^verbatim>\<open>query\<close>, and the handler rejects it with \<^verbatim>\<open>Invalid request body\<close> and status 400,
  since the decoder cannot store an array into the struct. The body
  \<^verbatim>\<open>{"QUERY":"SELEC 1"}\<close> has no key \<^verbatim>\<open>query\<close> either, and the handler submits
  \<^verbatim>\<open>SELEC 1\<close>, not the empty string, since the decoder matches keys without regard to
  letter case.
\<close>

theorem missing_query_key_counterexample:
  "queryHandler example_env (post (JArr [])) = [HttpError ''Invalid request body'' 400]
   \<and> queryHandler example_env (post (JObj [(''QUERY'', JStr ''SELEC 1'')])) =
       [DbQuery Background ''SELEC 1'', HttpError ''Query error: ERROR: syntax error'' 400]"
  by code_simp

text \<open>
  Claim C10, amended. A request body that is a JSON object with no key equal to
  \<^verbatim>\<open>query\<close> in any letter case (for example \<^verbatim>\<open>{}\<close>), or that is the JSON value
  \<^verbatim>\<open>null\<close>, is not rejected as a malformed-body 400 error; the handler submits the
  empty string as the query text to the database, and when the database rejects it the
  failure is reported as a query error with status 400. A body that is an array, a
  string, a number or a boolean is rejected with \<^verbatim>\<open>Invalid request body\<close> and status
  400, and an object with the single member \<open>k\<close>, where \<open>k\<close> is \<^verbatim>\<open>query\<close> in some letter
  case and its value a string, has that string submitted.
\<close>

theorem missing_query_key_submits_empty_text:
  assumes "Method r = ''POST''"
  shows "(Body r = Some JNull \<or>
          (Body r = Some (JObj kvs) \<and> (\<forall>k \<in> set (map fst kvs). \<not> is_query_key k)) \<longrightarrow>
            Decode (Body r) \<lparr>Query = []\<rparr> = (\<lparr>Query = []\<rparr>, None) \<and>
            queryHandler e r \<noteq> [HttpError ''Invalid request body'' 400] \<and>
            (\<exists>rest. queryHandler e r = DbQuery Background [] # rest) \<and>
            (\<forall>er. db_query e Background [] = Inl er \<longrightarrow>
               queryHandler e r =
                 [DbQuery Background [], HttpError (''Query error: '' @ er) 400]))
     \<and> (Body r = Some (JArr xs) \<or> Body r = Some (JStr s) \<or> Body r = Some (JNum n) \<or>
          Body r = Some (JBool b) \<longrightarrow>
            queryHandler e r = [HttpError ''Invalid request body'' 400])
     \<and> (Body r = Some (JObj [(k, JStr q)]) \<and> is_query_key k \<longrightarrow>
            (\<exists>rest. queryHandler e r = DbQuery Background q # rest))"
proof -
  have empty: "Decode (Body r) \<lparr>Query = []\<rparr> = (\<lparr>Query = []\<rparr>, None) \<and>
      queryHandler e r \<noteq> [HttpError ''Invalid request body'' 400] \<and>
      (\<exists>rest. queryHandler e r = DbQuery Background [] # rest) \<and>
      (\<forall>er. db_query e Background [] = Inl er \<longrightarrow>
         queryHandler e r = [DbQuery Background [], HttpError (''Query error: '' @ er) 400])"
    if body: "Body r = Some JNull \<or>
          (Body r = Some (JObj kvs) \<and> (\<forall>k \<in> set (map fst kvs). \<not> is_query_key k))"
  proof -
    from body have dec: "Decode (Body r) \<lparr>Query = []\<rparr> = (\<lparr>Query = []\<rparr>, None)"
    proof (elim disjE conjE)
      assume "Body r = Some JNull"
      then show ?thesis by simp
    next
      assume "Body r = Some (JObj kvs)" and "\<forall>k \<in> set (map fst kvs). \<not> is_query_key k"
      then show ?thesis using decode_members_no_key [of kvs] by simp
    qed
    have submitted: "\<exists>rest. queryHandler e r = DbQuery Background [] # rest"
      using assms dec by (simp add: queryHandler_def)
    then have not_rejected: "queryHandler e r \<noteq> [HttpError ''Invalid request body'' 400]"
      by auto
    have "queryHandler e r = [DbQuery Background [], HttpError (''Query error: '' @ er) 400]"
      if "db_query e Background [] = Inl er" for er
      using assms dec that by (simp add: queryHandler_def)
    with dec submitted not_rejected show ?thesis by blast
  qed
  have rejected: "queryHandler e r = [HttpError ''Invalid request body'' 400]"
    if "Body r = Some (JArr xs) \<or> Body r = Some (JStr s) \<or> Body r = Some (JNum n) \<or>
          Body r = Some (JBool b)"
    using that assms by (auto simp: queryHandler_def)
  have folded: "\<exists>rest. queryHandler e r = DbQuery Background q # rest"
    if "Body r = Some (JObj [(k, JStr q)])" and "is_query_key k"
    using that assms by (simp add: queryHandler_def)
  from empty rejected folded show ?thesis by blast
qed

theorem missing_query_key_submits_empty_text_witness:
  "queryHandler example_env (post (JObj [])) =
     [DbQuery Background [], HttpError ''Query error: ERROR: syntax error'' 400]
   \<and> queryHandler example_env (post (JObj [])) \<noteq> [HttpError ''Invalid request body'' 400]
   \<and> queryHandler example_env (post (JNum 1)) = [HttpError ''Invalid request body'' 400]
   \<and> (\<exists>rest. queryHandler example_env (post (JObj [(''Query'', JStr ''SELEC 1'')])) =
         DbQuery Background ''SELEC 1'' # rest)"
  using missing_query_key_submits_empty_text [where e = example_env
      and r = "post (JObj [])" and kvs = "[]"]
    missing_query_key_submits_empty_text [where e = example_env
      and r = "post (JNum 1)" and n = 1]
    missing_query_key_submits_empty_text [where e = example_env
      and r = "post (JObj [(''Query'', JStr ''SELEC 1'')])" and k = "''Query''"
      and q = "''SELEC 1''"]
  by (simp add: post_def example_env_def example_db_def is_query_key_capitalised)

text \<open>
  Claim C2, as stated, fails. When \<^verbatim>\<open>rows.Values()\<close> fails on the second row, the
  handler has written the header record and one row record; it then calls
  \<^verbatim>\<open>http.Error\<close>, which writes the message \<^verbatim>\<open>Error reading row: ...\<close> to the response
  writer of the already open stream, and it gives nothing to the \<^verbatim>\<open>log\<close> package.
\<close>

theorem error_payload_counterexample:
  "queryHandler example_env (post_query ''SELECT n FROM broken'') =
     [DbQuery Background ''SELECT n FROM broken'',
      HeaderSet ''Content-Encoding'' ''gzip'',
      HeaderSet ''Content-Type'' ''application/json'',
      Encoded (JObj [(''columns'', JArr [JStr ''n'']), (''rows'', JArr [])]),
      RowsNext,
      Encoded (JObj [(''rows'', JArr [JArr [JNum 1]])]),
      RowsNext,
      HttpError ''Error reading row: cannot scan value'' 500,
      GzClose,
      RowsClose]
   \<and> payload_after_open (queryHandler example_env (post_query ''SELECT n FROM broken''))
   \<and> log_lines (queryHandler example_env (post_query ''SELECT n FROM broken'')) = []"
  by (simp add: queryHandler_def example_env_def post_query_def post_def example_db_def
      rows_read_error_def is_query_key_def to_lower_def getColumnNames_def queryResponse_def
      row_record_def)

text \<open>
  Claim C2, amended. For every failure that occurs after the header record has been
  written, the handler aborts the remaining iteration and reports the failure with
  \<^verbatim>\<open>http.Error\<close>, not with the \<^verbatim>\<open>log\<close> package. When the rows \<open>rs\<close> have been streamed
  and \<^verbatim>\<open>rows.Values()\<close> then fails with \<open>er\<close>, the handler calls
  \<^verbatim>\<open>http.Error(w, "Error reading row: " + er, 500)\<close>; when \<^verbatim>\<open>Encode\<close> of the next row
  fails with \<open>er\<close>, it calls \<^verbatim>\<open>http.Error(w, "Error encoding row: " + er, 500)\<close>; when
  the cursor reports \<open>er\<close> at the end of iteration, it calls
  \<^verbatim>\<open>http.Error(w, "Query error: " + er, 500)\<close>. In each case this call, which writes
  the message to the response writer of the already open stream, is the next call
  behind the failure, only the deferred \<^verbatim>\<open>gz.Close()\<close> and \<^verbatim>\<open>rows.Close()\<close> follow
  it, and no later row is pulled or encoded. Conversely, whenever \<^verbatim>\<open>http.Error\<close> is
  called behind the header record, it is called once, with status 500, and only the
  deferred calls follow. The handler gives nothing to the \<^verbatim>\<open>log\<close> package.
\<close>

theorem midstream_failure_calls_http_error:
  assumes "Method r = ''POST''"
    and "Decode (Body r) \<lparr>Query = []\<rparr> = (sq, None)"
    and "db_query e Background (Query sq) = Inr rows"
    and "encode_err e 0 (queryResponse (map Name (FieldDescriptions rows))) = None"
    and "\<forall>i<length rs. encode_err e (Suc i) (row_record (rs ! i)) = None"
  shows "(pending rows = map Inr rs @ Inl er # rest \<longrightarrow>
            queryHandler e r =
              streamed sq rows rs @
              [RowsNext, HttpError (''Error reading row: '' @ er) 500, GzClose, RowsClose])
     \<and> (pending rows = map Inr rs @ Inr vs # rest \<and>
          encode_err e (Suc (length rs)) (row_record vs) = Some er \<longrightarrow>
            queryHandler e r =
              streamed sq rows rs @
              [RowsNext, EncodeFailed (row_record vs),
               HttpError (''Error encoding row: '' @ er) 500, GzClose, RowsClose])
     \<and> (pending rows = map Inr rs \<and> final_err rows = Some er \<longrightarrow>
            queryHandler e r =
              streamed sq rows rs @
              [RowsNext, HttpError (''Query error: '' @ er) 500, GzClose, RowsClose])
     \<and> (pending rows = map Inr rs @ Inl er # rest \<or>
          (pending rows = map Inr rs @ Inr vs # rest \<and>
             encode_err e (Suc (length rs)) (row_record vs) = Some er) \<or>
          (pending rows = map Inr rs \<and> final_err rows = Some er) \<longrightarrow>
            payload_after_open (queryHandler e r) \<and>
            length (http_errors (queryHandler e r)) = 1)
     \<and> (body_records (queryHandler e r) \<noteq> [] \<and> http_errors (queryHandler e r) \<noteq> [] \<longrightarrow>
            (\<exists>pre msg. queryHandler e r = pre @ [HttpError msg 500, GzClose, RowsClose] \<and>
               http_errors pre = []))
     \<and> log_lines (queryHandler e r) = []"
proof -
  have rd: "queryHandler e r =
      streamed sq rows rs @
      [RowsNext, HttpError (''Error reading row: '' @ er) 500, GzClose, RowsClose]"
    if "pending rows = map Inr rs @ Inl er # rest"
    using trace_read_error [OF assms that] .
  have en: "queryHandler e r =
      streamed sq rows rs @
      [RowsNext, EncodeFailed (row_record vs),
       HttpError (''Error encoding row: '' @ er) 500, GzClose, RowsClose]"
    if "pending rows = map Inr rs @ Inr vs # rest"
      and "encode_err e (Suc (length rs)) (row_record vs) = Some er"
    using trace_encode_error [OF assms that] .
  have cu: "queryHandler e r =
      streamed sq rows rs @
      [RowsNext, HttpError (''Query error: '' @ er) 500, GzClose, RowsClose]"
    if "pending rows = map Inr rs" and "final_err rows = Some er"
    using trace_cursor_error [OF assms that] .
  have open_stream: "body_records (streamed sq rows rs) \<noteq> []"
    by (simp add: body_records_streamed)
  have payload: "payload_after_open (queryHandler e r) \<and>
      length (http_errors (queryHandler e r)) = 1"
    if "pending rows = map Inr rs @ Inl er # rest \<or>
          (pending rows = map Inr rs @ Inr vs # rest \<and>
             encode_err e (Suc (length rs)) (row_record vs) = Some er) \<or>
          (pending rows = map Inr rs \<and> final_err rows = Some er)"
    using that
  proof (elim disjE conjE)
    assume "pending rows = map Inr rs @ Inl er # rest"
    then show ?thesis
      by (simp add: rd payload_after_open_append [OF open_stream] http_errors_append
          http_errors_streamed)
  next
    assume "pending rows = map Inr rs @ Inr vs # rest"
      and "encode_err e (Suc (length rs)) (row_record vs) = Some er"
    then show ?thesis
      by (simp add: en payload_after_open_append [OF open_stream] http_errors_append
          http_errors_streamed)
  next
    assume "pending rows = map Inr rs" and "final_err rows = Some er"
    then show ?thesis
      by (simp add: cu payload_after_open_append [OF open_stream] http_errors_append
          http_errors_streamed)
  qed
  have last_call: "\<exists>pre msg. queryHandler e r = pre @ [HttpError msg 500, GzClose, RowsClose] \<and>
      http_errors pre = []"
    if "body_records (queryHandler e r) \<noteq> []" and "http_errors (queryHandler e r) \<noteq> []"
    using failure_shape [OF that] by blast
  from rd en cu payload last_call queryHandler_no_log [of e r] show ?thesis by blast
qed

theorem midstream_failure_calls_http_error_witness:
  "queryHandler example_env (post_query ''SELECT n FROM broken'') =
     streamed \<lparr>Query = ''SELECT n FROM broken''\<rparr> rows_read_error [[JNum 1]] @
     [RowsNext, HttpError ''Error reading row: cannot scan value'' 500, GzClose, RowsClose]
   \<and> queryHandler failing_env (post_query ''SELECT n FROM three'') =
     streamed \<lparr>Query = ''SELECT n FROM three''\<rparr> rows_three [[JNum 1]] @
     [RowsNext, EncodeFailed (row_record [JNum 2]),
      HttpError ''Error encoding row: write: broken pipe'' 500, GzClose, RowsClose]
   \<and> queryHandler example_env (post_query ''SELECT 1/(n-1) FROM three'') =
     streamed \<lparr>Query = ''SELECT 1/(n-1) FROM three''\<rparr> rows_cursor_error [[JNum 1]] @
     [RowsNext, HttpError ''Query error: ERROR: division by zero'' 500, GzClose, RowsClose]"
  using midstream_failure_calls_http_error [where e = example_env
      and r = "post_query ''SELECT n FROM broken''"
      and sq = "\<lparr>Query = ''SELECT n FROM broken''\<rparr>" and rows = rows_read_error
      and rs = "[[JNum 1]]" and er = "''cannot scan value''" and rest = "[Inr [JNum 3]]"]
    midstream_failure_calls_http_error [where e = failing_env
      and r = "post_query ''SELECT n FROM three''"
      and sq = "\<lparr>Query = ''SELECT n FROM three''\<rparr>" and rows = rows_three
      and rs = "[[JNum 1]]" and er = "''write: broken pipe''" and vs = "[JNum 2]"
      and rest = "[Inr [JNum 3]]"]
    midstream_failure_calls_http_error [where e = example_env
      and r = "post_query ''SELECT 1/(n-1) FROM three''"
      and sq = "\<lparr>Query = ''SELECT 1/(n-1) FROM three''\<rparr>" and rows = rows_cursor_error
      and rs = "[[JNum 1]]" and er = "''ERROR: division by zero''"]
  by (simp add: post_query_def post_def is_query_key_def to_lower_def example_env_def
      failing_env_def example_db_def rows_read_error_def rows_three_def rows_cursor_error_def)




text \<open>
  Claim C8, as stated, fails. The request's cancellation signal has fired before the
  handler starts, and the database would refuse a query under that context; the handler
  submits the query under \<^verbatim>\<open>context.Background()\<close> and pulls all three rows of the
  cursor, with four calls of \<^verbatim>\<open>rows.Next()\<close>.
\<close>

theorem cancellation_counterexample:
  "Ctx cancelled_request = WithCancel (Some 0)
   \<and> example_db (Ctx cancelled_request) ''SELECT n FROM three'' = Inl ''context canceled''
   \<and> count_list (queryHandler example_env cancelled_request) RowsNext = 4
   \<and> body_records (queryHandler example_env cancelled_request) =
      [JObj [(''columns'', JArr [JStr ''n'']), (''rows'', JArr [])],
       JObj [(''rows'', JArr [JArr [JNum 1]])],
       JObj [(''rows'', JArr [JArr [JNum 2]])],
       JObj [(''rows'', JArr [JArr [JNum 3]])]]"
  by (simp add: queryHandler_def example_env_def cancelled_request_def example_db_def
      rows_three_def is_query_key_def to_lower_def getColumnNames_def queryResponse_def
      row_record_def)

text \<open>
  Claim C8, amended. The handler never consults the request's cancellation signal: it
  submits the query under \<^verbatim>\<open>context.Background()\<close>, and the calls it makes are the
  same whatever the context of the request is. It stops pulling rows only when the
  cursor is exhausted or reports an error, or when reading or encoding a row fails: when
  the rows \<open>rs\<close> are read and encoded and then the cursor ends, or the next row cannot be
  read, or the next record cannot be encoded, the handler has called \<^verbatim>\<open>rows.Next()\<close>
  exactly \<open>length rs + 1\<close> times, under every context of the request.
\<close>

theorem request_context_is_ignored:
  "queryHandler e (r\<lparr>Ctx := c\<rparr>) = queryHandler e r
   \<and> (\<forall>c' q. DbQuery c' q \<in> set (queryHandler e r) \<longrightarrow> c' = Background)
   \<and> (Method r = ''POST'' \<and> Decode (Body r) \<lparr>Query = []\<rparr> = (sq, None) \<and>
      db_query e Background (Query sq) = Inr rows \<and>
      encode_err e 0 (queryResponse (map Name (FieldDescriptions rows))) = None \<and>
      (\<forall>i<length rs. encode_err e (Suc i) (row_record (rs ! i)) = None) \<and>
      (pending rows = map Inr rs \<or>
       pending rows = map Inr rs @ Inl er # rest \<or>
       (pending rows = map Inr rs @ Inr vs # rest \<and>
          encode_err e (Suc (length rs)) (row_record vs) = Some er))
      \<longrightarrow> count_list (queryHandler e (r\<lparr>Ctx := c\<rparr>)) RowsNext = Suc (length rs))"
proof -
  have same: "queryHandler e (r\<lparr>Ctx := c\<rparr>) = queryHandler e r"
    by (simp add: queryHandler_def)
  have bg: "c' = Background" if "DbQuery c' q \<in> set (queryHandler e r)" for c' q
    using that stream_rows_no_query [of c' q e]
    by (auto simp: queryHandler_def Let_def split: if_splits prod.splits option.splits sum.splits)
  have pulls: "count_list (queryHandler e r) RowsNext = Suc (length rs)"
    if post: "Method r = ''POST''" and dec: "Decode (Body r) \<lparr>Query = []\<rparr> = (sq, None)"
      and db: "db_query e Background (Query sq) = Inr rows"
      and hdr: "encode_err e 0 (queryResponse (map Name (FieldDescriptions rows))) = None"
      and enc: "\<forall>i<length rs. encode_err e (Suc i) (row_record (rs ! i)) = None"
      and stop: "pending rows = map Inr rs \<or>
       pending rows = map Inr rs @ Inl er # rest \<or>
       (pending rows = map Inr rs @ Inr vs # rest \<and>
          encode_err e (Suc (length rs)) (row_record vs) = Some er)"
    using stop
  proof (elim disjE conjE)
    assume "pending rows = map Inr rs"
    then show ?thesis
      using next_calls_exhausted [OF post dec db hdr enc] by (simp add: count_next_streamed)
  next
    assume "pending rows = map Inr rs @ Inl er # rest"
    then show ?thesis
      using trace_read_error [OF post dec db hdr enc] by (simp add: count_next_streamed)
  next
    assume "pending rows = map Inr rs @ Inr vs # rest"
      and "encode_err e (Suc (length rs)) (row_record vs) = Some er"
    then show ?thesis
      using trace_encode_error [OF post dec db hdr enc] by (simp add: count_next_streamed)
  qed
  from same bg pulls show ?thesis by (simp only: same) blast
qed

theorem request_context_is_ignored_witness:
  "queryHandler example_env cancelled_request =
      queryHandler example_env (post_query ''SELECT n FROM three'')
   \<and> DbQuery Background ''SELECT n FROM three'' \<in> set (queryHandler example_env cancelled_request)
   \<and> count_list (queryHandler example_env cancelled_request) RowsNext = 4"
proof -
  have upd: "(post_query ''SELECT n FROM three'')\<lparr>Ctx := WithCancel (Some 0)\<rparr> = cancelled_request"
    by (simp add: post_query_def post_def cancelled_request_def)
  have called: "DbQuery Background ''SELECT n FROM three''
      \<in> set (queryHandler example_env (post_query ''SELECT n FROM three''))"
    by (simp add: queryHandler_def example_env_def post_query_def post_def example_db_def
      rows_three_def is_query_key_def to_lower_def)
  note at_example = request_context_is_ignored [where e = example_env
      and r = "post_query ''SELECT n FROM three''" and c = "WithCancel (Some 0)"
      and sq = "\<lparr>Query = ''SELECT n FROM three''\<rparr>" and rows = rows_three
      and rs = "[[JNum 1], [JNum 2], [JNum 3]]"]
  from at_example have same: "queryHandler example_env cancelled_request =
      queryHandler example_env (post_query ''SELECT n FROM three'')"
    by (simp only: upd)
  have "count_list (queryHandler example_env
      ((post_query ''SELECT n FROM three'')\<lparr>Ctx := WithCancel (Some 0)\<rparr>)) RowsNext =
      Suc (length [[JNum 1], [JNum 2], [JNum 3]])"
    by (rule at_example [THEN conjunct2, THEN conjunct2, THEN mp])
      (simp add: post_query_def post_def is_query_key_def to_lower_def example_env_def
        example_db_def rows_three_def)
  then have pulls: "count_list (queryHandler example_env cancelled_request) RowsNext = 4"
    by (simp add: upd)
  from same called pulls show ?thesis by simp
qed

end
